theory Spec2Isabelle
  imports Complex_Main "HOL-Library.Char_ord" "HOL-Library.List_Lexorder"
begin

section \<open>The extraction result\<close>

text \<open>
  The graph documents that \<^verbatim>\<open>visualize_graph\<close> receives carry nodes (\<^verbatim>\<open>id\<close>, \<^verbatim>\<open>type\<close>)
  and relationships (\<^verbatim>\<open>source\<close>, \<^verbatim>\<open>target\<close>, \<^verbatim>\<open>type\<close>); source and target are node
  objects of their own, not references into the node list. Python strings are modelled as
  \<open>string\<close>, one \<open>char\<close> per code point, so the model covers text whose code points are
  below 256. The fields \<^verbatim>\<open>id\<close> and \<^verbatim>\<open>type\<close> are renamed, since both names are taken in HOL.
\<close>

record node =
  node_id :: string
  node_type :: string

record relationship =
  source :: node
  target :: node
  rel_type :: string

record graph_document =
  nodes :: "node list"
  relationships :: "relationship list"

datatype error = AssertionError string | KeyError string | Exception string

fun message :: "error \<Rightarrow> string" where
  "message (AssertionError m) = m"
| "message (KeyError k) = [CHR 0x27] @ k @ [CHR 0x27]"
| "message (Exception m) = m"

section \<open>The graph artifact\<close>

record vertex =
  v_id :: string
  v_label :: string
  v_title :: string
  v_group :: string

record edge =
  e_from :: string
  e_to :: string
  e_label :: string

record physics =
  gravitationalConstant :: int
  centralGravity :: rat
  springLength :: int
  springConstant :: rat
  minVelocity :: rat
  solver :: string

record network =
  net_nodes :: "vertex list"
  node_ids :: "string list"
  edges :: "edge list"
  directed :: bool
  options :: "physics option"

text \<open>
  Modelled from the spec: the class \<^verbatim>\<open>Network\<close> of the rendering library is not under src/.
  A graph artifact holds the vertices, the edges and the layout configuration; a new one is
  empty. The graph is created directed, so parallel edges are allowed. The canvas attributes
  of the constructor (height, width, colours, filter menu) do not influence vertices or edges
  and are left out.
\<close>

definition Network :: "bool \<Rightarrow> network" where
  "Network d = \<lparr>net_nodes = [], node_ids = [], edges = [], directed = d, options = None\<rparr>"

text \<open>
  Modelled from the spec: the method \<^verbatim>\<open>Network.add_node\<close> is not under src/. Adding an id
  that is already a vertex is a no-op; otherwise one vertex is appended, with the label
  passed in (or the id, when the label is empty), the tooltip and the group.
\<close>

definition add_node :: "string \<Rightarrow> string \<Rightarrow> string \<Rightarrow> string \<Rightarrow> network \<Rightarrow> error + network" where
  "add_node n_id label title grp net =
     (if n_id \<in> set (node_ids net) then Inr net
      else Inr (net\<lparr>net_nodes := net_nodes net @
                       [\<lparr>v_id = n_id, v_label = (if label \<noteq> [] then label else n_id),
                         v_title = title, v_group = grp\<rparr>],
                     node_ids := node_ids net @ [n_id]\<rparr>))"

text \<open>
  Modelled from the spec: the method \<^verbatim>\<open>Network.add_edge\<close> is not under src/. Insertion
  fails, leaving the network as it was, when the source or the target is missing from the
  vertex set; otherwise one edge is appended, also when an edge between the same pair exists.
\<close>

definition add_edge :: "string \<Rightarrow> string \<Rightarrow> string \<Rightarrow> network \<Rightarrow> error + network" where
  "add_edge src to label net =
     (if src \<notin> set (node_ids net)
        then Inl (AssertionError (''non existent node '' @ [CHR 0x27] @ src @ [CHR 0x27]))
      else if to \<notin> set (node_ids net)
        then Inl (AssertionError (''non existent node '' @ [CHR 0x27] @ to @ [CHR 0x27]))
      else Inr (net\<lparr>edges := edges net @ [\<lparr>e_from = src, e_to = to, e_label = label\<rparr>]\<rparr>))"

text \<open>
  Modelled from the spec: the method \<^verbatim>\<open>Network.set_options\<close> is not under src/. It attaches
  the layout configuration and touches neither vertices nor edges.
\<close>

definition set_options :: "physics \<Rightarrow> network \<Rightarrow> network" where
  "set_options p net = net\<lparr>options := Some p\<rparr>"

section \<open>main.py: visualize_graph\<close>

text \<open>
  \<^verbatim>\<open>str.lower()\<close> on code points below 256: the letters A to Z and the accented capitals
  0xC0 to 0xDE (0xD7, the multiplication sign, apart) move up by 32.
\<close>

definition lower_char :: "char \<Rightarrow> char" where
  "lower_char c =
     (let n = (of_char c :: nat)
      in if (65 \<le> n \<and> n \<le> 90) \<or> (192 \<le> n \<and> n \<le> 222 \<and> n \<noteq> 215)
         then char_of (n + 32) else c)"

definition lower :: "string \<Rightarrow> string" where
  "lower s = map lower_char s"

text \<open>Line 79: the dict comprehension; a later node with the same id replaces an earlier one.\<close>

definition build_node_dict :: "node list \<Rightarrow> (string \<rightharpoonup> node)" where
  "build_node_dict ns = fold (\<lambda>n d. d(node_id n \<mapsto> n)) ns Map.empty"

text \<open>Lines 82 to 87: the loop that fills \<^verbatim>\<open>valid_edges\<close> and \<^verbatim>\<open>valid_node_ids\<close>.\<close>

fun validate_loop ::
  "(string \<rightharpoonup> node) \<Rightarrow> relationship list \<Rightarrow> relationship list \<times> string set
     \<Rightarrow> relationship list \<times> string set" where
  "validate_loop node_dict [] acc = acc"
| "validate_loop node_dict (rel # rels) (valid_edges, valid_node_ids) =
     (if node_dict (node_id (source rel)) \<noteq> None \<and> node_dict (node_id (target rel)) \<noteq> None
      then validate_loop node_dict rels
             (valid_edges @ [rel],
              valid_node_ids \<union> set [node_id (source rel), node_id (target rel)])
      else validate_loop node_dict rels (valid_edges, valid_node_ids))"

definition validate :: "node list \<Rightarrow> relationship list \<Rightarrow> relationship list \<times> string set" where
  "validate ns rels = validate_loop (build_node_dict ns) rels ([], {})"

text \<open>
  The two insertion methods are called on the network object inside a \<^verbatim>\<open>try\<close>. The loops
  take them as parameters, so that what the loops do when an insertion raises is stated for
  every behaviour of the library; a method that raises returns \<open>Inl\<close> and leaves the network
  as it was.
\<close>

type_synonym add_node_method = "string \<Rightarrow> string \<Rightarrow> string \<Rightarrow> string \<Rightarrow> network \<Rightarrow> error + network"

type_synonym add_edge_method = "string \<Rightarrow> string \<Rightarrow> string \<Rightarrow> network \<Rightarrow> error + network"

text \<open>
  Lines 90 to 96: the loop over \<^verbatim>\<open>valid_node_ids\<close>. The lookup \<^verbatim>\<open>node_dict[node_id]\<close> stands
  before the \<^verbatim>\<open>try\<close>, so a missing key leaves the function with a KeyError; a failing
  \<^verbatim>\<open>add_node\<close> is printed and the loop goes on. The second component collects the lines
  printed so far.
\<close>

fun add_nodes_loop ::
  "add_node_method \<Rightarrow> (string \<rightharpoonup> node) \<Rightarrow> string list \<Rightarrow> network \<Rightarrow> string list
     \<Rightarrow> (error + network) \<times> string list" where
  "add_nodes_loop net_add_node node_dict [] net out = (Inr net, out)"
| "add_nodes_loop net_add_node node_dict (i # ids) net out =
     (case node_dict i of
        None \<Rightarrow> (Inl (KeyError i), out)
      | Some n \<Rightarrow>
          (case net_add_node (node_id n) (node_id n) (node_type n) (node_type n) net of
             Inl e \<Rightarrow>
               add_nodes_loop net_add_node node_dict ids net
                 (out @ [''Error adding node '' @ i @ '': '' @ message e])
           | Inr net' \<Rightarrow> add_nodes_loop net_add_node node_dict ids net' out))"

text \<open>Lines 99 to 104: the loop over \<^verbatim>\<open>valid_edges\<close>; everything happens inside the \<^verbatim>\<open>try\<close>.\<close>

fun add_edges_loop ::
  "add_edge_method \<Rightarrow> relationship list \<Rightarrow> network \<Rightarrow> string list \<Rightarrow> network \<times> string list" where
  "add_edges_loop net_add_edge [] net out = (net, out)"
| "add_edges_loop net_add_edge (rel # rels) net out =
     (case net_add_edge (node_id (source rel)) (node_id (target rel)) (lower (rel_type rel)) net of
        Inl e \<Rightarrow>
          add_edges_loop net_add_edge rels net
            (out @ [''Error adding edge '' @ node_id (source rel) @ '' -> '' @
                    node_id (target rel) @ '': '' @ message e])
      | Inr net' \<Rightarrow> add_edges_loop net_add_edge rels net' out)"

definition physics_options :: physics where
  "physics_options =
     \<lparr>gravitationalConstant = -100, centralGravity = 1 / 100, springLength = 200,
      springConstant = 8 / 100, minVelocity = 75 / 100, solver = ''forceAtlas2Based''\<rparr>"

text \<open>
  Python does not fix the order in which a set is iterated. The function \<open>iter\<close> stands for
  that order: \<open>set_iteration iter\<close> says that it lists every element of a finite set once.
\<close>

definition set_iteration :: "(string set \<Rightarrow> string list) \<Rightarrow> bool" where
  "set_iteration iter \<longleftrightarrow> (\<forall>S. finite S \<longrightarrow> set (iter S) = S \<and> distinct (iter S))"

text \<open>
  The result is the returned value (\<open>None\<close> for Python's None, \<open>Inl\<close> for an exception that
  leaves the function) together with the lines printed. \<open>visualize_graph_with\<close> is the body of
  the function with the two insertion methods of the network as parameters;
  \<open>visualize_graph\<close> is the function itself, on the network of the rendering library.
\<close>

definition visualize_graph_with ::
  "add_node_method \<Rightarrow> add_edge_method \<Rightarrow> (string set \<Rightarrow> string list)
     \<Rightarrow> graph_document list option \<Rightarrow> (error + network option) \<times> string list" where
  "visualize_graph_with net_add_node net_add_edge iter graph_documents =
     (case graph_documents of
        None \<Rightarrow> (Inr None, [''No graph documents to visualize''])
      | Some [] \<Rightarrow> (Inr None, [''No graph documents to visualize''])
      | Some (gd # _) \<Rightarrow>
          (let net = Network True;
               node_dict = build_node_dict (nodes gd);
               (valid_edges, valid_node_ids) =
                  validate_loop node_dict (relationships gd) ([], {})
           in case add_nodes_loop net_add_node node_dict (iter valid_node_ids) net [] of
                (Inl e, out) \<Rightarrow> (Inl e, out)
              | (Inr net1, out1) \<Rightarrow>
                  (case add_edges_loop net_add_edge valid_edges net1 out1 of
                     (net2, out2) \<Rightarrow> (Inr (Some (set_options physics_options net2)), out2))))"

definition visualize_graph ::
  "(string set \<Rightarrow> string list) \<Rightarrow> graph_document list option
     \<Rightarrow> (error + network option) \<times> string list" where
  "visualize_graph iter graph_documents =
     visualize_graph_with add_node add_edge iter graph_documents"

section \<open>main.py: the extraction pipeline\<close>


type_synonym transformer = "string \<Rightarrow> error + graph_document list"


datatype ui_message =
    PleaseEnterSomeText
  | TextExceedsLimit int
  | TextTruncated nat int
  | FileLoaded nat
  | CouldNotExtractText
  | Characters nat int
  | FailedToGenerate
  | GeneratedSuccessfully
  | UsedCustom "string list" "string list"

datatype event =
    Print string
  | ExtractionCall string
  | SidebarError ui_message
  | SidebarWarning ui_message
  | SidebarSuccess ui_message
  | SidebarInfo ui_message
  | StError ui_message
  | StSuccess ui_message
  | StInfo ui_message
  | Preview string
  | NodesTable "node list"
  | RelationshipsTable "relationship list"
  | SaveGraph network string
  | Metric string nat
  | ComponentsHtml string



definition extract_graph_data ::
  "string \<Rightarrow> transformer \<Rightarrow> graph_document list option \<times> event list" where
  "extract_graph_data text graph_transformer =
     (case graph_transformer text of
        Inl e \<Rightarrow> (None, [ExtractionCall text, Print (''Error extracting graph data: '' @ message e)])
      | Inr graph_documents \<Rightarrow> (Some graph_documents, [ExtractionCall text]))"

definition generate_knowledge_graph_async ::
  "(string set \<Rightarrow> string list) \<Rightarrow> string \<Rightarrow> transformer
     \<Rightarrow> (network option \<times> graph_document list option) \<times> event list" where
  "generate_knowledge_graph_async iter text graph_transformer =
     (case extract_graph_data text graph_transformer of
        (graph_documents, ev) \<Rightarrow>
          if graph_documents \<noteq> None \<and> graph_documents \<noteq> Some []
          then (case visualize_graph iter graph_documents of
                  (Inl e, out) \<Rightarrow>
                    ((None, None),
                     ev @ map Print out @
                       [Print (''Error generating knowledge graph: '' @ message e)])
                | (Inr net, out) \<Rightarrow> ((net, graph_documents), ev @ map Print out))
          else ((None, None), ev))"

section \<open>app.py\<close>












section \<open>The scenario of the spec\<close>

definition node_A :: node where "node_A = \<lparr>node_id = ''A'', node_type = ''Person''\<rparr>"
definition node_B :: node where "node_B = \<lparr>node_id = ''B'', node_type = ''Person''\<rparr>"
definition node_C :: node where "node_C = \<lparr>node_id = ''C'', node_type = ''Org''\<rparr>"
definition node_X :: node where "node_X = \<lparr>node_id = ''X'', node_type = ''Person''\<rparr>"

definition rel_works_for :: relationship where
  "rel_works_for = \<lparr>source = node_A, target = node_C, rel_type = ''WORKS_FOR''\<rparr>"

definition rel_knows :: relationship where
  "rel_knows = \<lparr>source = node_A, target = node_X, rel_type = ''KNOWS''\<rparr>"

definition scenario_nodes :: "node list" where
  "scenario_nodes = [node_A, node_B, node_C]"

definition scenario_rels :: "relationship list" where
  "scenario_rels = [rel_works_for, rel_knows]"

definition scenario_doc :: graph_document where
  "scenario_doc = \<lparr>nodes = scenario_nodes, relationships = scenario_rels\<rparr>"



text \<open>
  Material for a run in which one vertex cannot be added: a vertex insertion that refuses
  the id C and otherwise behaves as the library's, and a document in which A works for C and
  A knows B.
\<close>

definition refusing_add_node :: add_node_method where
  "refusing_add_node n_id label title grp net =
     (if n_id = ''C'' then Inl (Exception ''bad vertex'')
      else add_node n_id label title grp net)"

definition rel_knows_B :: relationship where
  "rel_knows_B = \<lparr>source = node_A, target = node_B, rel_type = ''KNOWS''\<rparr>"

definition connected_doc :: graph_document where
  "connected_doc = \<lparr>nodes = scenario_nodes, relationships = [rel_works_for, rel_knows_B]\<rparr>"

section \<open>The validator in closed form\<close>

definition ids_of :: "node list \<Rightarrow> string set" where
  "ids_of ns = node_id ` set ns"

definition retained :: "node list \<Rightarrow> relationship \<Rightarrow> bool" where
  "retained ns rel \<longleftrightarrow> node_id (source rel) \<in> ids_of ns \<and> node_id (target rel) \<in> ids_of ns"

definition endpoints :: "relationship list \<Rightarrow> string set" where
  "endpoints rels = node_id ` source ` set rels \<union> node_id ` target ` set rels"

section \<open>The builder in closed form\<close>

text \<open>
  Vocabulary for the proofs: the vertex made from a node, the edge made from a relationship,
  when \<^verbatim>\<open>add_edge\<close> accepts a relationship, the line printed when it does not, and the
  effect of the two loops as folds. None of these is used by the model of the program above;
  the lemmas below relate them to it.
\<close>

definition vertex_of :: "node \<Rightarrow> vertex" where
  "vertex_of n = \<lparr>v_id = node_id n, v_label = node_id n, v_title = node_type n, v_group = node_type n\<rparr>"

definition edge_of :: "relationship \<Rightarrow> edge" where
  "edge_of r = \<lparr>e_from = node_id (source r), e_to = node_id (target r), e_label = lower (rel_type r)\<rparr>"

definition insertable :: "network \<Rightarrow> relationship \<Rightarrow> bool" where
  "insertable net r \<longleftrightarrow> node_id (source r) \<in> set (node_ids net) \<and> node_id (target r) \<in> set (node_ids net)"

definition edge_error_line :: "network \<Rightarrow> relationship \<Rightarrow> string" where
  "edge_error_line net r =
     ''Error adding edge '' @ node_id (source r) @ '' -> '' @ node_id (target r) @ '': '' @
     ''non existent node '' @ [CHR 0x27] @
     (if node_id (source r) \<notin> set (node_ids net) then node_id (source r) else node_id (target r))
     @ [CHR 0x27]"

definition keyed :: "(string \<rightharpoonup> node) \<Rightarrow> bool" where
  "keyed d \<longleftrightarrow> (\<forall>i n. d i = Some n \<longrightarrow> node_id n = i)"

definition wf_net :: "network \<Rightarrow> bool" where
  "wf_net net \<longleftrightarrow> map v_id (net_nodes net) = node_ids net \<and> distinct (node_ids net)"

definition insert_vertex :: "node \<Rightarrow> network \<Rightarrow> network" where
  "insert_vertex n net =
     (if node_id n \<in> set (node_ids net) then net
      else net\<lparr>net_nodes := net_nodes net @ [vertex_of n], node_ids := node_ids net @ [node_id n]\<rparr>)"

definition insert_all :: "(string \<rightharpoonup> node) \<Rightarrow> string list \<Rightarrow> network \<Rightarrow> network" where
  "insert_all d ids net = fold (\<lambda>i. insert_vertex (the (d i))) ids net"

definition rendered :: "(string set \<Rightarrow> string list) \<Rightarrow> graph_document \<Rightarrow> network" where
  "rendered iter gd =
     set_options physics_options
       ((insert_all (build_node_dict (nodes gd))
           (iter (snd (validate (nodes gd) (relationships gd)))) (Network True))
        \<lparr>edges := map edge_of (fst (validate (nodes gd) (relationships gd)))\<rparr>)"

section \<open>Lemmas\<close>

lemmas scenario_defs =
  node_A_def node_B_def node_C_def node_X_def rel_works_for_def rel_knows_def
  scenario_nodes_def scenario_rels_def scenario_doc_def

lemma dom_fold_upd:
  "dom (fold (\<lambda>n d. d(node_id n \<mapsto> n)) ns m) = dom m \<union> node_id ` set ns"
  by (induction ns arbitrary: m) auto

lemma dom_build_node_dict: "dom (build_node_dict ns) = ids_of ns"
  by (simp add: build_node_dict_def ids_of_def dom_fold_upd)

lemma build_node_dict_None: "build_node_dict ns i \<noteq> None \<longleftrightarrow> i \<in> ids_of ns"
  using dom_build_node_dict [of ns] by (auto simp: dom_def)

lemma validate_loop_eq:
  "validate_loop d rels (ve, vs) =
     (ve @ filter (\<lambda>r. d (node_id (source r)) \<noteq> None \<and> d (node_id (target r)) \<noteq> None) rels,
      vs \<union> endpoints
             (filter (\<lambda>r. d (node_id (source r)) \<noteq> None \<and> d (node_id (target r)) \<noteq> None) rels))"
proof (induction rels arbitrary: ve vs)
  case Nil
  show ?case by (simp add: endpoints_def)
next
  case (Cons r rels)
  show ?case by (auto simp: Cons.IH endpoints_def)
qed

lemma validate_eq:
  "validate ns rels = (filter (retained ns) rels, endpoints (filter (retained ns) rels))"
proof -
  have "(\<lambda>r. build_node_dict ns (node_id (source r)) \<noteq> None
              \<and> build_node_dict ns (node_id (target r)) \<noteq> None) = retained ns"
    unfolding retained_def build_node_dict_None ..
  then show ?thesis
    unfolding validate_def validate_loop_eq by simp
qed

lemma add_edges_loop_eq:
  "add_edges_loop add_edge rels net out =
     (net\<lparr>edges := edges net @ map edge_of (filter (insertable net) rels)\<rparr>,
      out @ map (edge_error_line net) (filter (\<lambda>r. \<not> insertable net r) rels))"
proof (induction rels arbitrary: net out)
  case Nil
  show ?case by simp
next
  case (Cons r rels)
  let ?call = "add_edge (node_id (source r)) (node_id (target r)) (lower (rel_type r)) net"
  show ?case
  proof (cases "insertable net r")
    case True
    then have c: "?call = Inr (net\<lparr>edges := edges net @ [edge_of r]\<rparr>)"
      by (simp add: add_edge_def insertable_def edge_of_def)
    have i: "insertable (net\<lparr>edges := edges net @ [edge_of r]\<rparr>) = insertable net"
      by (simp add: insertable_def fun_eq_iff)
    have l: "edge_error_line (net\<lparr>edges := edges net @ [edge_of r]\<rparr>) = edge_error_line net"
      by (simp add: edge_error_line_def fun_eq_iff)
    show ?thesis
      unfolding add_edges_loop.simps c sum.case Cons.IH i l using True by simp
  next
    case False
    then have c: "?call = Inl (AssertionError (''non existent node '' @ [CHR 0x27] @
           (if node_id (source r) \<notin> set (node_ids net) then node_id (source r)
            else node_id (target r)) @ [CHR 0x27]))"
      by (auto simp: add_edge_def insertable_def)
    show ?thesis
      unfolding add_edges_loop.simps c sum.case Cons.IH using False
      by (simp add: edge_error_line_def)
  qed
qed

lemma add_node_insert_vertex:
  "add_node (node_id n) (node_id n) (node_type n) (node_type n) net = Inr (insert_vertex n net)"
  by (auto simp: add_node_def vertex_of_def insert_vertex_def)

lemma add_nodes_loop_eq:
  "set ids \<subseteq> dom d \<Longrightarrow>
     add_nodes_loop add_node d ids net out = (Inr (insert_all d ids net), out)"
proof (induction ids arbitrary: net)
  case Nil
  show ?case by (simp add: insert_all_def)
next
  case (Cons i ids)
  then obtain n where n: "d i = Some n" by auto
  from Cons.prems have "set ids \<subseteq> dom d" by simp
  from Cons.IH [OF this] show ?case
    by (simp add: n add_node_insert_vertex insert_all_def)
qed

lemma insert_all_Cons: "insert_all d (i # ids) net = insert_all d ids (insert_vertex (the (d i)) net)"
  by (simp add: insert_all_def)

lemma insert_all_Nil: "insert_all d [] net = net"
  by (simp add: insert_all_def)

lemma insert_all_edges:
  "edges (insert_all d ids net) = edges net \<and> options (insert_all d ids net) = options net"
  by (induction ids arbitrary: net) (simp_all add: insert_all_Nil insert_all_Cons insert_vertex_def)

lemma insert_all_wf: "wf_net net \<Longrightarrow> wf_net (insert_all d ids net)"
proof (induction ids arbitrary: net)
  case Nil
  then show ?case by (simp add: insert_all_Nil)
next
  case (Cons i ids)
  have "wf_net (insert_vertex (the (d i)) net)"
    using Cons.prems by (simp add: wf_net_def insert_vertex_def vertex_of_def)
  from Cons.IH [OF this] show ?case by (simp add: insert_all_Cons)
qed

lemma insert_all_node_ids:
  "keyed d \<Longrightarrow> set ids \<subseteq> dom d \<Longrightarrow>
     set (node_ids (insert_all d ids net)) = set (node_ids net) \<union> set ids"
proof (induction ids arbitrary: net)
  case Nil
  show ?case by (simp add: insert_all_Nil)
next
  case (Cons i ids)
  then obtain n where n: "d i = Some n" by auto
  with Cons.prems have k: "node_id n = i" by (simp add: keyed_def)
  have "set (node_ids (insert_vertex n net)) = insert i (set (node_ids net))"
    by (auto simp: insert_vertex_def k)
  with Cons.IH [of "insert_vertex n net"] Cons.prems show ?case
    by (simp add: insert_all_Cons n)
qed

lemma keyed_upd: "keyed m \<Longrightarrow> keyed (m(node_id n \<mapsto> n))"
  unfolding keyed_def by (simp split: if_splits)

lemma keyed_build_node_dict: "keyed (build_node_dict ns)"
proof -
  have "keyed m \<Longrightarrow> keyed (fold (\<lambda>n d. d(node_id n \<mapsto> n)) ns m)" for m
    by (induction ns arbitrary: m) (simp_all add: keyed_upd)
  moreover have "keyed Map.empty" by (simp add: keyed_def)
  ultimately show ?thesis by (simp add: build_node_dict_def)
qed

lemma insert_vertex_node_ids:
  "set (node_ids (insert_vertex n net)) = insert (node_id n) (set (node_ids net))"
  by (auto simp: insert_vertex_def)

lemma insert_vertex_net_nodes:
  "set (net_nodes (insert_vertex n net)) =
     set (net_nodes net) \<union> (if node_id n \<in> set (node_ids net) then {} else {vertex_of n})"
  by (simp add: insert_vertex_def)

lemma insert_all_net_nodes:
  "keyed d \<Longrightarrow> set ids \<subseteq> dom d \<Longrightarrow>
     set (net_nodes (insert_all d ids net)) =
       set (net_nodes net) \<union> (\<lambda>i. vertex_of (the (d i))) ` (set ids - set (node_ids net))"
proof (induction ids arbitrary: net)
  case Nil
  show ?case by (simp add: insert_all_Nil)
next
  case (Cons i ids)
  then obtain n where n: "d i = Some n" by auto
  with Cons.prems have k: "node_id n = i" by (simp add: keyed_def)
  from Cons.prems have sub: "set ids \<subseteq> dom d" by simp
  let ?f = "\<lambda>i. vertex_of (the (d i))"
  have fi: "?f i = vertex_of n" by (simp add: n)
  have "set (net_nodes (insert_all d (i # ids) net)) =
          set (net_nodes net) \<union> (if i \<in> set (node_ids net) then {} else {?f i})
          \<union> ?f ` (set ids - insert i (set (node_ids net)))"
    unfolding insert_all_Cons n option.sel Cons.IH [OF Cons.prems(1) sub]
      insert_vertex_node_ids insert_vertex_net_nodes k fi ..
  also have "\<dots> = set (net_nodes net) \<union> ?f ` (set (i # ids) - set (node_ids net))"
    by (cases "i \<in> set (node_ids net)") auto
  finally show ?case .
qed

lemma finite_endpoints: "finite (endpoints rels)"
  by (simp add: endpoints_def)

lemma endpoints_retained_dom:
  "endpoints (filter (retained ns) rels) \<subseteq> dom (build_node_dict ns)"
  by (auto simp: endpoints_def retained_def dom_build_node_dict)

lemma filter_insertable_all:
  "endpoints rels \<subseteq> set (node_ids net) \<Longrightarrow> filter (insertable net) rels = rels"
  by (induction rels) (auto simp: endpoints_def insertable_def)

lemma filter_not_insertable_none:
  "endpoints rels \<subseteq> set (node_ids net) \<Longrightarrow> filter (\<lambda>r. \<not> insertable net r) rels = []"
  by (induction rels) (auto simp: endpoints_def insertable_def)

lemma visualize_graph_eq:
  assumes it: "set_iteration iter"
  shows "visualize_graph iter (Some (gd # rest)) = (Inr (Some (rendered iter gd)), [])"
proof -
  let ?d = "build_node_dict (nodes gd)"
  let ?ve = "filter (retained (nodes gd)) (relationships gd)"
  let ?vs = "endpoints ?ve"
  let ?net1 = "insert_all ?d (iter ?vs) (Network True)"
  have v: "validate_loop ?d (relationships gd) ([], {}) = (?ve, ?vs)"
    using validate_eq [of "nodes gd" "relationships gd"] by (simp add: validate_def)
  have s: "set (iter ?vs) = ?vs"
    using it finite_endpoints [of ?ve] by (simp add: set_iteration_def)
  then have sub: "set (iter ?vs) \<subseteq> dom ?d"
    using endpoints_retained_dom [of "nodes gd" "relationships gd"] by simp
  have n1: "add_nodes_loop add_node ?d (iter ?vs) (Network True) [] = (Inr ?net1, [])"
    by (rule add_nodes_loop_eq [OF sub])
  have ids: "set (node_ids ?net1) = ?vs"
    using insert_all_node_ids [OF keyed_build_node_dict sub, of "Network True"] s
    by (simp add: Network_def)
  have e0: "edges ?net1 = []"
    by (simp add: insert_all_edges Network_def)
  have n2: "add_edges_loop add_edge ?ve ?net1 [] = (?net1\<lparr>edges := map edge_of ?ve\<rparr>, [])"
  proof -
    have f1: "filter (insertable ?net1) ?ve = ?ve"
      by (rule filter_insertable_all) (simp add: ids)
    have f2: "filter (\<lambda>r. \<not> insertable ?net1 r) ?ve = []"
      by (rule filter_not_insertable_none) (simp add: ids)
    show ?thesis unfolding add_edges_loop_eq f1 f2 e0 by simp
  qed
  show ?thesis
    unfolding visualize_graph_def visualize_graph_with_def rendered_def validate_eq
    by (simp add: v n1 n2)
qed

lemma set_iteration_sorted: "set_iteration sorted_list_of_set"
  by (simp add: set_iteration_def)

lemma wf_Network: "wf_net (Network d)"
  by (simp add: wf_net_def Network_def)

lemma rendered_edges:
  "edges (rendered iter gd) = map edge_of (fst (validate (nodes gd) (relationships gd)))"
  by (simp add: rendered_def set_options_def)

lemma rendered_wf: "wf_net (rendered iter gd)"
  using insert_all_wf [OF wf_Network, of "build_node_dict (nodes gd)" 
           "iter (snd (validate (nodes gd) (relationships gd)))" True]
  by (simp add: rendered_def set_options_def wf_net_def)

lemma iter_valid_ids:
  assumes "set_iteration iter"
  shows "set (iter (snd (validate ns rels))) = snd (validate ns rels)"
  using assms finite_endpoints by (simp add: set_iteration_def validate_eq)

lemma valid_ids_dom: "snd (validate ns rels) \<subseteq> dom (build_node_dict ns)"
  by (simp add: validate_eq endpoints_retained_dom)

lemma rendered_node_ids:
  assumes "set_iteration iter"
  shows "set (node_ids (rendered iter gd)) = snd (validate (nodes gd) (relationships gd))"
proof -
  let ?vs = "snd (validate (nodes gd) (relationships gd))"
  have "set (iter ?vs) \<subseteq> dom (build_node_dict (nodes gd))"
    using iter_valid_ids [OF assms] valid_ids_dom by simp
  from insert_all_node_ids [OF keyed_build_node_dict this, of "Network True"]
  show ?thesis
    by (simp add: rendered_def set_options_def Network_def iter_valid_ids [OF assms])
qed

lemma rendered_net_nodes:
  assumes "set_iteration iter"
  shows "set (net_nodes (rendered iter gd)) =
           (\<lambda>i. vertex_of (the (build_node_dict (nodes gd) i)))
             ` snd (validate (nodes gd) (relationships gd))"
proof -
  let ?vs = "snd (validate (nodes gd) (relationships gd))"
  have "set (iter ?vs) \<subseteq> dom (build_node_dict (nodes gd))"
    using iter_valid_ids [OF assms] valid_ids_dom by simp
  from insert_all_net_nodes [OF keyed_build_node_dict this, of "Network True"]
  show ?thesis
    by (simp add: rendered_def set_options_def Network_def iter_valid_ids [OF assms])
qed

lemma rendered_vertex_ids:
  assumes "set_iteration iter"
  shows "v_id ` set (net_nodes (rendered iter gd)) = snd (validate (nodes gd) (relationships gd))"
proof -
  have "v_id ` set (net_nodes (rendered iter gd)) = set (map v_id (net_nodes (rendered iter gd)))"
    by simp
  also have "\<dots> = set (node_ids (rendered iter gd))"
    using rendered_wf [of iter gd] by (simp only: wf_net_def)
  finally show ?thesis by (simp add: rendered_node_ids [OF assms])
qed

lemma valid_ids_char:
  "snd (validate ns rels) =
     {i. \<exists>r \<in> set rels. retained ns r \<and> (i = node_id (source r) \<or> i = node_id (target r))}"
  by (auto simp: validate_eq endpoints_def)

section \<open>The claims\<close>

text \<open>
  C1. Whatever the node list and the relationship list, every relationship kept in
  \<^verbatim>\<open>valid_edges\<close> has the id of its source and the id of its target among the ids of the
  nodes; \<^verbatim>\<open>valid_node_ids\<close> is exactly the set of source and target ids of the kept
  relationships, and so a subset of the ids of the nodes.
\<close>

theorem C1_validator_postcondition:
  "(\<forall>r \<in> set (fst (validate ns rels)).
       node_id (source r) \<in> ids_of ns \<and> node_id (target r) \<in> ids_of ns)
   \<and> snd (validate ns rels) = endpoints (fst (validate ns rels))
   \<and> snd (validate ns rels) \<subseteq> ids_of ns"
  by (auto simp: validate_eq retained_def endpoints_def)

theorem C1_validator_postcondition_witness:
  "fst (validate scenario_nodes scenario_rels) = [rel_works_for]
   \<and> node_id (source rel_works_for) \<in> ids_of scenario_nodes
   \<and> node_id (target rel_works_for) \<in> ids_of scenario_nodes
   \<and> snd (validate scenario_nodes scenario_rels) = endpoints [rel_works_for]
   \<and> snd (validate scenario_nodes scenario_rels) \<subseteq> ids_of scenario_nodes"
proof -
  have v: "fst (validate scenario_nodes scenario_rels) = [rel_works_for]"
    by (simp add: validate_def build_node_dict_def scenario_defs)
  show ?thesis
    using C1_validator_postcondition [of scenario_nodes scenario_rels] unfolding v by auto
qed

text \<open>
  C5. The kept relationships are the input list with the dangling ones removed: they stand
  in \<^verbatim>\<open>valid_edges\<close> in the order of the input, and a relationship that occurs several
  times in the input occurs as many times in \<^verbatim>\<open>valid_edges\<close> (when its endpoints exist).
\<close>

theorem C5_validation_order_and_duplicates:
  "fst (validate ns rels) = filter (retained ns) rels
   \<and> count_list (fst (validate ns rels)) r = (if retained ns r then count_list rels r else 0)"
proof -
  have "count_list (filter P xs) x = (if P x then count_list xs x else 0)" for P xs and x :: relationship
    by (induction xs) auto
  then show ?thesis by (simp add: validate_eq)
qed

theorem C5_validation_order_and_duplicates_witness:
  "retained scenario_nodes rel_works_for
   \<and> fst (validate scenario_nodes (rel_works_for # rel_knows # scenario_rels))
       = [rel_works_for, rel_works_for]
   \<and> count_list (fst (validate scenario_nodes (rel_works_for # rel_knows # scenario_rels)))
         rel_works_for = 2"
proof -
  have r: "retained scenario_nodes rel_works_for" "\<not> retained scenario_nodes rel_knows"
    by (simp_all add: retained_def ids_of_def scenario_defs)
  show ?thesis
    using C5_validation_order_and_duplicates
            [of scenario_nodes "rel_works_for # rel_knows # scenario_rels" rel_works_for]
    by (simp add: r scenario_rels_def)
qed

text \<open>
  C2. For a graph document, the ids of the vertices of the rendered graph are exactly the
  ids that are an endpoint of some relationship with both endpoints among the node ids. So a
  node of the document has a vertex if and only if it is an endpoint of such a relationship,
  and a node with no such relationship has none.
\<close>

theorem C2_rendered_membership:
  assumes "set_iteration iter"
  shows "\<exists>net. visualize_graph iter (Some (gd # rest)) = (Inr (Some net), [])
           \<and> v_id ` set (net_nodes net) =
               {i. \<exists>r \<in> set (relationships gd). retained (nodes gd) r
                      \<and> (i = node_id (source r) \<or> i = node_id (target r))}
           \<and> (\<forall>n \<in> set (nodes gd).
                 (\<exists>v \<in> set (net_nodes net). v_id v = node_id n) \<longleftrightarrow>
                 (\<exists>r \<in> set (relationships gd). retained (nodes gd) r
                      \<and> (node_id n = node_id (source r) \<or> node_id n = node_id (target r))))"
proof -
  let ?net = "rendered iter gd"
  have ids: "v_id ` set (net_nodes ?net) =
               {i. \<exists>r \<in> set (relationships gd). retained (nodes gd) r
                      \<and> (i = node_id (source r) \<or> i = node_id (target r))}"
    unfolding rendered_vertex_ids [OF assms] valid_ids_char ..
  have "(\<exists>v \<in> set (net_nodes ?net). v_id v = i) \<longleftrightarrow> i \<in> v_id ` set (net_nodes ?net)" for i
    by auto
  then have "\<forall>n \<in> set (nodes gd).
                 (\<exists>v \<in> set (net_nodes ?net). v_id v = node_id n) \<longleftrightarrow>
                 (\<exists>r \<in> set (relationships gd). retained (nodes gd) r
                      \<and> (node_id n = node_id (source r) \<or> node_id n = node_id (target r)))"
    unfolding ids by simp
  with ids visualize_graph_eq [OF assms, of gd rest] show ?thesis by blast
qed

theorem C2_rendered_membership_witness:
  "set_iteration sorted_list_of_set
   \<and> (\<exists>net. visualize_graph sorted_list_of_set (Some [scenario_doc]) = (Inr (Some net), [])
         \<and> node_A \<in> set (nodes scenario_doc) \<and> node_B \<in> set (nodes scenario_doc)
         \<and> (\<exists>v \<in> set (net_nodes net). v_id v = node_id node_A)
         \<and> \<not> (\<exists>v \<in> set (net_nodes net). v_id v = node_id node_B))"
proof -
  have a: "\<exists>r \<in> set (relationships scenario_doc). retained (nodes scenario_doc) r
             \<and> (node_id node_A = node_id (source r) \<or> node_id node_A = node_id (target r))"
    by (simp add: scenario_defs retained_def ids_of_def)
  have b: "\<not> (\<exists>r \<in> set (relationships scenario_doc). retained (nodes scenario_doc) r
             \<and> (node_id node_B = node_id (source r) \<or> node_id node_B = node_id (target r)))"
    by (simp add: scenario_defs retained_def ids_of_def)
  have m: "node_A \<in> set (nodes scenario_doc)" "node_B \<in> set (nodes scenario_doc)"
    by (simp_all add: scenario_defs)
  from C2_rendered_membership [OF set_iteration_sorted, of scenario_doc "[]"]
  obtain net where
    v: "visualize_graph sorted_list_of_set (Some [scenario_doc]) = (Inr (Some net), [])"
    and n: "\<forall>n \<in> set (nodes scenario_doc).
                 (\<exists>v \<in> set (net_nodes net). v_id v = node_id n) \<longleftrightarrow>
                 (\<exists>r \<in> set (relationships scenario_doc). retained (nodes scenario_doc) r
                      \<and> (node_id n = node_id (source r) \<or> node_id n = node_id (target r)))"
    by blast
  from n m a b have "(\<exists>v \<in> set (net_nodes net). v_id v = node_id node_A)"
    "\<not> (\<exists>v \<in> set (net_nodes net). v_id v = node_id node_B)"
    by blast+
  with v m set_iteration_sorted show ?thesis by blast
qed

lemma wf_length: "wf_net net \<Longrightarrow> length (net_nodes net) = card (set (node_ids net))"
proof -
  assume w: "wf_net net"
  then have "length (net_nodes net) = length (node_ids net)"
    unfolding wf_net_def by (metis length_map)
  with w show ?thesis by (simp add: wf_net_def distinct_card)
qed

lemma scenario_validate:
  "validate (nodes scenario_doc) (relationships scenario_doc) = ([rel_works_for], {''A'', ''C''})"
  by (simp add: validate_def build_node_dict_def scenario_defs insert_commute)

text \<open>
  C4. The edges of the rendered graph are the kept relationships, one edge each and in the
  same order, from the id of the source to the id of the target, labelled with the
  relationship type in lower case. In the scenario of the spec (nodes A, B, C; A works for C,
  A knows X with X not a node) the graph has two vertices, A and C, and the single edge from
  A to C labelled works_for.
\<close>

theorem C4_edge_labeling:
  assumes "set_iteration iter"
  shows "(\<exists>net. visualize_graph iter (Some (gd # rest)) = (Inr (Some net), [])
            \<and> edges net =
                map (\<lambda>r. \<lparr>e_from = node_id (source r), e_to = node_id (target r),
                           e_label = lower (rel_type r)\<rparr>)
                    (fst (validate (nodes gd) (relationships gd))))
       \<and> (\<exists>net. visualize_graph iter (Some [scenario_doc]) = (Inr (Some net), [])
            \<and> length (net_nodes net) = 2
            \<and> v_id ` set (net_nodes net) = {''A'', ''C''}
            \<and> edges net = [\<lparr>e_from = ''A'', e_to = ''C'', e_label = ''works_for''\<rparr>])"
proof -
  have e: "edge_of = (\<lambda>r. \<lparr>e_from = node_id (source r), e_to = node_id (target r),
                           e_label = lower (rel_type r)\<rparr>)"
    by (simp add: fun_eq_iff edge_of_def)
  have general: "\<exists>net. visualize_graph iter (Some (gd # rest)) = (Inr (Some net), [])
            \<and> edges net =
                map (\<lambda>r. \<lparr>e_from = node_id (source r), e_to = node_id (target r),
                           e_label = lower (rel_type r)\<rparr>)
                    (fst (validate (nodes gd) (relationships gd)))"
    using visualize_graph_eq [OF assms, of gd rest] rendered_edges [of iter gd]
    unfolding e by blast
  let ?net = "rendered iter scenario_doc"
  have l: "lower ''WORKS_FOR'' = ''works_for''" by code_simp
  have ids: "set (node_ids ?net) = {''A'', ''C''}"
    by (simp add: rendered_node_ids [OF assms] scenario_validate)
  have "card {''A'', ''C''} = 2" by simp
  then have n: "length (net_nodes ?net) = 2"
    using wf_length [OF rendered_wf, of iter scenario_doc] unfolding ids by simp
  have v: "v_id ` set (net_nodes ?net) = {''A'', ''C''}"
    by (simp add: rendered_vertex_ids [OF assms] scenario_validate)
  have ed: "edges ?net = [\<lparr>e_from = ''A'', e_to = ''C'', e_label = ''works_for''\<rparr>]"
    by (simp add: rendered_edges scenario_validate edge_of_def l rel_works_for_def node_A_def node_C_def)
  from visualize_graph_eq [OF assms, of scenario_doc "[]"] n v ed general
  show ?thesis by blast
qed

theorem C4_edge_labeling_witness:
  "set_iteration sorted_list_of_set
   \<and> visualize_graph sorted_list_of_set (Some [scenario_doc]) =
       (Inr (Some \<lparr>net_nodes =
                     [\<lparr>v_id = ''A'', v_label = ''A'', v_title = ''Person'', v_group = ''Person''\<rparr>,
                      \<lparr>v_id = ''C'', v_label = ''C'', v_title = ''Org'', v_group = ''Org''\<rparr>],
                   node_ids = [''A'', ''C''],
                   edges = [\<lparr>e_from = ''A'', e_to = ''C'', e_label = ''works_for''\<rparr>],
                   directed = True, options = Some physics_options\<rparr>), [])
   \<and> (\<exists>net. visualize_graph sorted_list_of_set (Some [scenario_doc]) = (Inr (Some net), [])
            \<and> length (net_nodes net) = 2
            \<and> v_id ` set (net_nodes net) = {''A'', ''C''}
            \<and> edges net = [\<lparr>e_from = ''A'', e_to = ''C'', e_label = ''works_for''\<rparr>])"
proof -
  have c: "visualize_graph sorted_list_of_set (Some [scenario_doc]) =
       (Inr (Some \<lparr>net_nodes =
                     [\<lparr>v_id = ''A'', v_label = ''A'', v_title = ''Person'', v_group = ''Person''\<rparr>,
                      \<lparr>v_id = ''C'', v_label = ''C'', v_title = ''Org'', v_group = ''Org''\<rparr>],
                   node_ids = [''A'', ''C''],
                   edges = [\<lparr>e_from = ''A'', e_to = ''C'', e_label = ''works_for''\<rparr>],
                   directed = True, options = Some physics_options\<rparr>), [])"
    by code_simp
  from C4_edge_labeling [OF set_iteration_sorted, of scenario_doc "[]"] c set_iteration_sorted
  show ?thesis by blast
qed

lemma endpoints_empty: "endpoints rels = {} \<Longrightarrow> rels = []"
  by (cases rels) (auto simp: endpoints_def)

text \<open>
  C6. Validating an empty node list and an empty relationship list gives no edges and no
  ids. Whenever \<^verbatim>\<open>valid_node_ids\<close> is empty, \<^verbatim>\<open>visualize_graph\<close> raises nothing and returns a
  network with no vertices and no edges.
\<close>

theorem C6_empty_artifact:
  assumes "set_iteration iter" and "snd (validate (nodes gd) (relationships gd)) = {}"
  shows "validate [] [] = ([], {})
       \<and> (\<exists>net. visualize_graph iter (Some (gd # rest)) = (Inr (Some net), [])
              \<and> net_nodes net = [] \<and> edges net = [])"
proof -
  have "endpoints (fst (validate (nodes gd) (relationships gd))) = {}"
    using assms(2) by (simp add: validate_eq)
  then have ve: "fst (validate (nodes gd) (relationships gd)) = []"
    by (rule endpoints_empty)
  have "set (net_nodes (rendered iter gd)) = {}"
    by (simp add: rendered_net_nodes [OF assms(1)] assms(2))
  then have n: "net_nodes (rendered iter gd) = []" by simp
  have e: "edges (rendered iter gd) = []" by (simp add: rendered_edges ve)
  have "validate [] [] = ([], {})" by (simp add: validate_def)
  with visualize_graph_eq [OF assms(1), of gd rest] n e show ?thesis by blast
qed

theorem C6_empty_artifact_witness:
  "set_iteration sorted_list_of_set
   \<and> snd (validate (nodes \<lparr>nodes = [], relationships = []\<rparr>)
                    (relationships \<lparr>nodes = [], relationships = []\<rparr>)) = {}
   \<and> (\<exists>net. visualize_graph sorted_list_of_set (Some [\<lparr>nodes = [], relationships = []\<rparr>])
                = (Inr (Some net), [])
              \<and> net_nodes net = [] \<and> edges net = [])"
proof -
  have v: "snd (validate (nodes \<lparr>nodes = [], relationships = []\<rparr>)
                    (relationships \<lparr>nodes = [], relationships = []\<rparr>)) = {}"
    by (simp add: validate_def)
  from C6_empty_artifact [OF set_iteration_sorted v, of "[]"] v set_iteration_sorted
  show ?thesis by blast
qed

lemma insertable_add_edge:
  "insertable net r \<longleftrightarrow>
     (\<exists>net'. add_edge (node_id (source r)) (node_id (target r)) (lower (rel_type r)) net = Inr net')"
  by (simp add: insertable_def add_edge_def)

lemma add_edges_loop_append:
  "add_edges_loop ae (rs1 @ rs2) net out =
     (case add_edges_loop ae rs1 net out of (net1, out1) \<Rightarrow> add_edges_loop ae rs2 net1 out1)"
  by (induction rs1 arbitrary: net out) (simp_all split: sum.splits)

lemma add_nodes_loop_append:
  "add_nodes_loop an d (ids1 @ ids2) net out =
     (case add_nodes_loop an d ids1 net out of
        (Inl e, out1) \<Rightarrow> (Inl e, out1)
      | (Inr net1, out1) \<Rightarrow> add_nodes_loop an d ids2 net1 out1)"
  by (induction ids1 arbitrary: net out) (simp_all split: sum.splits option.splits)

lemma add_nodes_loop_total:
  "set ids \<subseteq> dom d \<Longrightarrow> \<exists>net' out'. add_nodes_loop an d ids net out = (Inr net', out')"
proof (induction ids arbitrary: net out)
  case Nil
  show ?case by simp
next
  case (Cons i ids)
  then obtain n where n: "d i = Some n" by auto
  from Cons.prems have sub: "set ids \<subseteq> dom d" by simp
  show ?case
  proof (cases "an (node_id n) (node_id n) (node_type n) (node_type n) net")
    case (Inl e)
    with Cons.IH [OF sub, of net "out @ [''Error adding node '' @ i @ '': '' @ message e]"] n
    show ?thesis by simp
  next
    case (Inr net')
    with Cons.IH [OF sub, of net' out] n show ?thesis by simp
  qed
qed

lemma visualize_graph_with_total:
  assumes "set_iteration iter"
  shows "\<exists>vn vo.
           add_nodes_loop an (build_node_dict (nodes gd))
             (iter (snd (validate (nodes gd) (relationships gd)))) (Network True) [] = (Inr vn, vo)
         \<and> visualize_graph_with an ae iter (Some (gd # rest)) =
             (Inr (Some (set_options physics_options
                     (fst (add_edges_loop ae (fst (validate (nodes gd) (relationships gd))) vn vo)))),
              snd (add_edges_loop ae (fst (validate (nodes gd) (relationships gd))) vn vo))"
proof -
  let ?d = "build_node_dict (nodes gd)"
  obtain ve vs where v: "validate (nodes gd) (relationships gd) = (ve, vs)"
    by (cases "validate (nodes gd) (relationships gd)")
  have "set (iter vs) \<subseteq> dom ?d"
    using iter_valid_ids [OF assms, of "nodes gd" "relationships gd"]
      valid_ids_dom [of "nodes gd" "relationships gd"] by (simp add: v)
  from add_nodes_loop_total [OF this, of an "Network True" "[]"]
  obtain vn vo where l: "add_nodes_loop an ?d (iter vs) (Network True) [] = (Inr vn, vo)"
    by blast
  have v': "validate_loop ?d (relationships gd) ([], {}) = (ve, vs)"
    using v by (simp add: validate_def)
  obtain n2 o2 where e: "add_edges_loop ae ve vn vo = (n2, o2)"
    by (cases "add_edges_loop ae ve vn vo")
  have "visualize_graph_with an ae iter (Some (gd # rest)) =
          (Inr (Some (set_options physics_options n2)), o2)"
    unfolding visualize_graph_with_def by (simp add: v' l e)
  with l show ?thesis unfolding v by (simp add: e)
qed

text \<open>
  C7. Whatever the insertion methods of the network do: when inserting an edge raises, the
  edge loop prints one line, leaves the network as it was and goes on with the remaining
  relationships; when inserting a vertex raises, the vertex loop does the same with the
  remaining ids; the vertex loop ends without an exception when every id is a key of the
  node dictionary; and on a non-empty list of documents \<^verbatim>\<open>visualize_graph\<close> returns the
  network the two loops produce, never an exception. With the library's \<^verbatim>\<open>add_edge\<close>, the
  edge loop started on any network adds exactly the relationships whose two endpoints are
  vertices, in order, and prints one line for each of the others.
\<close>

theorem C7_builder_defensive_skip:
  "(add_edges_loop ae rs1 net out = (net1, out1)
      \<and> ae (node_id (source r)) (node_id (target r)) (lower (rel_type r)) net1 = Inl e \<longrightarrow>
        add_edges_loop ae (rs1 @ r # rs2) net out =
          add_edges_loop ae rs2 net1
            (out1 @ [''Error adding edge '' @ node_id (source r) @ '' -> '' @
                     node_id (target r) @ '': '' @ message e]))
   \<and> (add_nodes_loop an d ids1 vnet vout = (Inr vnet1, vout1) \<and> d i = Some n
      \<and> an (node_id n) (node_id n) (node_type n) (node_type n) vnet1 = Inl ve \<longrightarrow>
        add_nodes_loop an d (ids1 @ i # ids2) vnet vout =
          add_nodes_loop an d ids2 vnet1
            (vout1 @ [''Error adding node '' @ i @ '': '' @ message ve]))
   \<and> (set ids \<subseteq> dom d \<longrightarrow>
        (\<exists>net' out'. add_nodes_loop an d ids vnet vout = (Inr net', out')))
   \<and> add_edges_loop add_edge rels net out =
        (net\<lparr>edges := edges net @ map edge_of (filter (insertable net) rels)\<rparr>,
         out @ map (edge_error_line net) (filter (\<lambda>r. \<not> insertable net r) rels))
   \<and> (insertable net r \<longleftrightarrow>
        (\<exists>net'. add_edge (node_id (source r)) (node_id (target r)) (lower (rel_type r)) net
                  = Inr net'))
   \<and> (set_iteration iter \<longrightarrow>
        (\<exists>vn vo.
           add_nodes_loop an (build_node_dict (nodes gd))
             (iter (snd (validate (nodes gd) (relationships gd)))) (Network True) [] = (Inr vn, vo)
         \<and> visualize_graph_with an ae iter (Some (gd # rest)) =
             (Inr (Some (set_options physics_options
                     (fst (add_edges_loop ae (fst (validate (nodes gd) (relationships gd))) vn vo)))),
              snd (add_edges_loop ae (fst (validate (nodes gd) (relationships gd))) vn vo))))"
proof -
  have c1: "add_edges_loop ae rs1 net out = (net1, out1)
      \<and> ae (node_id (source r)) (node_id (target r)) (lower (rel_type r)) net1 = Inl e \<longrightarrow>
        add_edges_loop ae (rs1 @ r # rs2) net out =
          add_edges_loop ae rs2 net1
            (out1 @ [''Error adding edge '' @ node_id (source r) @ '' -> '' @
                     node_id (target r) @ '': '' @ message e])"
    by (simp add: add_edges_loop_append)
  have c2: "add_nodes_loop an d ids1 vnet vout = (Inr vnet1, vout1) \<and> d i = Some n
      \<and> an (node_id n) (node_id n) (node_type n) (node_type n) vnet1 = Inl ve \<longrightarrow>
        add_nodes_loop an d (ids1 @ i # ids2) vnet vout =
          add_nodes_loop an d ids2 vnet1
            (vout1 @ [''Error adding node '' @ i @ '': '' @ message ve])"
    by (simp add: add_nodes_loop_append)
  have c3: "set ids \<subseteq> dom d \<longrightarrow>
        (\<exists>net' out'. add_nodes_loop an d ids vnet vout = (Inr net', out'))"
    using add_nodes_loop_total [of ids d an vnet vout] by blast
  have c6: "set_iteration iter \<longrightarrow>
        (\<exists>vn vo.
           add_nodes_loop an (build_node_dict (nodes gd))
             (iter (snd (validate (nodes gd) (relationships gd)))) (Network True) [] = (Inr vn, vo)
         \<and> visualize_graph_with an ae iter (Some (gd # rest)) =
             (Inr (Some (set_options physics_options
                     (fst (add_edges_loop ae (fst (validate (nodes gd) (relationships gd))) vn vo)))),
              snd (add_edges_loop ae (fst (validate (nodes gd) (relationships gd))) vn vo)))"
    using visualize_graph_with_total [of iter an gd ae rest] by blast
  from c1 c2 c3 add_edges_loop_eq [of rels net out] insertable_add_edge [of net r] c6
  show ?thesis by (intro conjI)
qed

theorem C7_builder_defensive_skip_witness:
  "add_edges_loop add_edge [] (Network True\<lparr>node_ids := [''A'', ''B'']\<rparr>) []
     = (Network True\<lparr>node_ids := [''A'', ''B'']\<rparr>, [])
   \<and> add_edge (node_id (source rel_works_for)) (node_id (target rel_works_for))
        (lower (rel_type rel_works_for)) (Network True\<lparr>node_ids := [''A'', ''B'']\<rparr>)
     = Inl (AssertionError (''non existent node '' @ [CHR 0x27] @ ''C'' @ [CHR 0x27]))
   \<and> add_edges_loop add_edge ([] @ rel_works_for # [rel_knows_B])
         (Network True\<lparr>node_ids := [''A'', ''B'']\<rparr>) []
     = (Network True\<lparr>node_ids := [''A'', ''B''],
                      edges := [\<lparr>e_from = ''A'', e_to = ''B'', e_label = ''knows''\<rparr>]\<rparr>,
        [''Error adding edge A -> C: non existent node '' @ [CHR 0x27] @ ''C'' @ [CHR 0x27]])
   \<and> add_nodes_loop refusing_add_node (build_node_dict scenario_nodes) [''A''] (Network True) []
     = (Inr (Network True\<lparr>net_nodes := [vertex_of node_A], node_ids := [''A'']\<rparr>), [])
   \<and> build_node_dict scenario_nodes ''C'' = Some node_C
   \<and> refusing_add_node (node_id node_C) (node_id node_C) (node_type node_C) (node_type node_C)
        (Network True\<lparr>net_nodes := [vertex_of node_A], node_ids := [''A'']\<rparr>)
     = Inl (Exception ''bad vertex'')
   \<and> add_nodes_loop refusing_add_node (build_node_dict scenario_nodes) ([''A''] @ ''C'' # [''B''])
         (Network True) []
     = (Inr (Network True\<lparr>net_nodes := [vertex_of node_A, vertex_of node_B],
                           node_ids := [''A'', ''B'']\<rparr>),
        [''Error adding node C: bad vertex''])
   \<and> set [''A'', ''C'', ''B''] \<subseteq> dom (build_node_dict scenario_nodes)
   \<and> (\<exists>net' out'. add_nodes_loop refusing_add_node (build_node_dict scenario_nodes)
                        [''A'', ''C'', ''B''] (Network True) [] = (Inr net', out'))
   \<and> set_iteration sorted_list_of_set
   \<and> \<not> insertable (Network True\<lparr>node_ids := [''A'', ''B'']\<rparr>) rel_works_for
   \<and> visualize_graph_with refusing_add_node add_edge sorted_list_of_set (Some [connected_doc])
     = (Inr (Some \<lparr>net_nodes = [vertex_of node_A, vertex_of node_B],
                   node_ids = [''A'', ''B''],
                   edges = [\<lparr>e_from = ''A'', e_to = ''B'', e_label = ''knows''\<rparr>],
                   directed = True, options = Some physics_options\<rparr>),
        [''Error adding node C: bad vertex'',
         ''Error adding edge A -> C: non existent node '' @ [CHR 0x27] @ ''C'' @ [CHR 0x27]])"
proof -
  let ?net = "Network True\<lparr>node_ids := [''A'', ''B'']\<rparr>"
  let ?d = "build_node_dict scenario_nodes"
  let ?vnet1 = "Network True\<lparr>net_nodes := [vertex_of node_A], node_ids := [''A'']\<rparr>"
  let ?e = "AssertionError (''non existent node '' @ [CHR 0x27] @ ''C'' @ [CHR 0x27])"
  note t = C7_builder_defensive_skip
             [of add_edge "[]" ?net "[]" ?net "[]" rel_works_for ?e "[rel_knows_B]"
                 refusing_add_node ?d "[''A'']" "Network True" "[]" ?vnet1 "[]" "''C''" node_C
                 "Exception ''bad vertex''" "[''B'']" "[''A'', ''C'', ''B'']" "[]"
                 sorted_list_of_set connected_doc "[]"]
  have h1: "add_edges_loop add_edge [] ?net [] = (?net, [])" by simp
  have h2: "add_edge (node_id (source rel_works_for)) (node_id (target rel_works_for))
              (lower (rel_type rel_works_for)) ?net = Inl ?e"
    by code_simp
  have h3: "add_nodes_loop refusing_add_node ?d [''A''] (Network True) [] = (Inr ?vnet1, [])"
    by code_simp
  have h4: "?d ''C'' = Some node_C"
    by (simp add: build_node_dict_def scenario_defs)
  have h5: "refusing_add_node (node_id node_C) (node_id node_C) (node_type node_C)
              (node_type node_C) ?vnet1 = Inl (Exception ''bad vertex'')"
    by (simp add: refusing_add_node_def node_C_def)
  have h6: "set [''A'', ''C'', ''B''] \<subseteq> dom ?d"
    by (simp add: dom_build_node_dict ids_of_def scenario_defs)
  have h7: "\<not> insertable ?net rel_works_for"
    by (simp add: insertable_def Network_def scenario_defs)
  have r1: "add_edges_loop add_edge [rel_knows_B] ?net
              ([] @ [''Error adding edge '' @ node_id (source rel_works_for) @ '' -> '' @
                     node_id (target rel_works_for) @ '': '' @ message ?e])
            = (Network True\<lparr>node_ids := [''A'', ''B''],
                      edges := [\<lparr>e_from = ''A'', e_to = ''B'', e_label = ''knows''\<rparr>]\<rparr>,
        [''Error adding edge A -> C: non existent node '' @ [CHR 0x27] @ ''C'' @ [CHR 0x27]])"
    by code_simp
  have r2: "add_nodes_loop refusing_add_node ?d [''B''] ?vnet1
              ([] @ [''Error adding node '' @ ''C'' @ '': '' @ message (Exception ''bad vertex'')])
            = (Inr (Network True\<lparr>net_nodes := [vertex_of node_A, vertex_of node_B],
                           node_ids := [''A'', ''B'']\<rparr>),
               [''Error adding node C: bad vertex''])"
    by code_simp
  have r3: "visualize_graph_with refusing_add_node add_edge sorted_list_of_set
              (Some [connected_doc])
     = (Inr (Some \<lparr>net_nodes = [vertex_of node_A, vertex_of node_B],
                   node_ids = [''A'', ''B''],
                   edges = [\<lparr>e_from = ''A'', e_to = ''B'', e_label = ''knows''\<rparr>],
                   directed = True, options = Some physics_options\<rparr>),
        [''Error adding node C: bad vertex'',
         ''Error adding edge A -> C: non existent node '' @ [CHR 0x27] @ ''C'' @ [CHR 0x27]])"
    by code_simp
  from t h1 h2 have c1: "add_edges_loop add_edge ([] @ rel_works_for # [rel_knows_B]) ?net []
     = add_edges_loop add_edge [rel_knows_B] ?net
              ([] @ [''Error adding edge '' @ node_id (source rel_works_for) @ '' -> '' @
                     node_id (target rel_works_for) @ '': '' @ message ?e])"
    by blast
  from t h3 h4 h5 have c2:
    "add_nodes_loop refusing_add_node ?d ([''A''] @ ''C'' # [''B'']) (Network True) []
     = add_nodes_loop refusing_add_node ?d [''B''] ?vnet1
              ([] @ [''Error adding node '' @ ''C'' @ '': '' @ message (Exception ''bad vertex'')])"
    by blast
  from t h6 have c3:
    "\<exists>net' out'. add_nodes_loop refusing_add_node ?d [''A'', ''C'', ''B''] (Network True) []
                    = (Inr net', out')"
    by blast
  from h1 h2 c1 [unfolded r1] h3 h4 h5 c2 [unfolded r2] h6 c3 set_iteration_sorted h7 r3
  show ?thesis by (intro conjI)
qed

lemma filter_distinct_one:
  "distinct (map f xs) \<Longrightarrow> a \<in> f ` set xs \<Longrightarrow> length (filter (\<lambda>v. f v = a) xs) = 1"
proof (induction xs)
  case Nil
  then show ?case by simp
next
  case (Cons x xs)
  show ?case
  proof (cases "f x = a")
    case True
    from Cons.prems(1) have \<open>f x \<notin> f ` set xs\<close> by simp
    have "\<forall>v \<in> set xs. f v \<noteq> a"
    proof (intro ballI notI)
      fix v assume "v \<in> set xs" and eq: "f v = a"
      then have "f v \<in> f ` set xs" by (intro imageI)
      with eq True \<open>f x \<notin> f ` set xs\<close> show False by simp
    qed
    then have "filter (\<lambda>v. f v = a) xs = []"
      by (simp add: filter_empty_conv)
    with True show ?thesis by simp
  next
    case False
    with Cons show ?thesis by auto
  qed
qed

lemma add_node_wf:
  "wf_net net \<Longrightarrow> add_node i l t g net = Inr net1 \<Longrightarrow> wf_net net1 \<and> i \<in> set (node_ids net1)"
  by (auto simp: add_node_def wf_net_def split: if_splits)

lemma add_node_twice:
  "add_node i l t g net = Inr net1 \<Longrightarrow> add_node i l' t' g' net1 = Inr net1"
  by (auto simp: add_node_def split: if_splits)

lemma wf_one_vertex:
  assumes "wf_net net" "i \<in> set (node_ids net)"
  shows "length (filter (\<lambda>v. v_id v = i) (net_nodes net)) = 1"
proof -
  from assms have "distinct (map v_id (net_nodes net))" "i \<in> v_id ` set (net_nodes net)"
    unfolding wf_net_def by (metis, metis list.set_map)
  then show ?thesis by (rule filter_distinct_one)
qed

text \<open>
  C8. Adding a vertex id a second time leaves the network as it is, whatever attributes are
  passed, and a well-formed network holds one vertex with that id afterwards. In the rendered
  graph the vertex ids are distinct, and every id of \<^verbatim>\<open>valid_node_ids\<close> has exactly one
  vertex, however many kept relationships mention it.
\<close>

theorem C8_vertex_insertion_idempotent:
  "(\<exists>net1. add_node i l t g net = Inr net1
        \<and> add_node i l' t' g' net1 = Inr net1
        \<and> (wf_net net \<longrightarrow> length (filter (\<lambda>v. v_id v = i) (net_nodes net1)) = 1))
   \<and> (set_iteration iter \<longrightarrow>
        (\<exists>net. visualize_graph iter (Some (gd # rest)) = (Inr (Some net), [])
           \<and> distinct (map v_id (net_nodes net))
           \<and> (\<forall>j \<in> snd (validate (nodes gd) (relationships gd)).
                 length (filter (\<lambda>v. v_id v = j) (net_nodes net)) = 1)))"
proof -
  obtain net1 where n1: "add_node i l t g net = Inr net1"
    by (cases "i \<in> set (node_ids net)") (simp_all add: add_node_def)
  have a: "add_node i l' t' g' net1 = Inr net1"
    using n1 by (rule add_node_twice)
  have b: "wf_net net \<longrightarrow> length (filter (\<lambda>v. v_id v = i) (net_nodes net1)) = 1"
    using add_node_wf [OF _ n1] wf_one_vertex [of net1 i] by blast
  have c: "set_iteration iter \<longrightarrow>
        (\<exists>net. visualize_graph iter (Some (gd # rest)) = (Inr (Some net), [])
           \<and> distinct (map v_id (net_nodes net))
           \<and> (\<forall>j \<in> snd (validate (nodes gd) (relationships gd)).
                 length (filter (\<lambda>v. v_id v = j) (net_nodes net)) = 1))"
  proof
    assume it: "set_iteration iter"
    let ?net = "rendered iter gd"
    have w: "wf_net ?net" by (rule rendered_wf)
    then have d: "distinct (map v_id (net_nodes ?net))" by (simp add: wf_net_def)
    have "\<forall>j \<in> snd (validate (nodes gd) (relationships gd)).
             length (filter (\<lambda>v. v_id v = j) (net_nodes ?net)) = 1"
      using wf_one_vertex [OF w] rendered_node_ids [OF it, of gd] by blast
    with d visualize_graph_eq [OF it, of gd rest]
    show "\<exists>net. visualize_graph iter (Some (gd # rest)) = (Inr (Some net), [])
           \<and> distinct (map v_id (net_nodes net))
           \<and> (\<forall>j \<in> snd (validate (nodes gd) (relationships gd)).
                 length (filter (\<lambda>v. v_id v = j) (net_nodes net)) = 1)"
      by blast
  qed
  from n1 a b c show ?thesis by blast
qed

theorem C8_vertex_insertion_idempotent_witness:
  "wf_net (Network True) \<and> set_iteration sorted_list_of_set
   \<and> ''A'' \<in> snd (validate scenario_nodes [rel_works_for, rel_works_for])
   \<and> (\<exists>net1. add_node ''A'' ''A'' ''Person'' ''Person'' (Network True) = Inr net1
        \<and> add_node ''A'' ''A'' ''Person'' ''Person'' net1 = Inr net1
        \<and> length (filter (\<lambda>v. v_id v = ''A'') (net_nodes net1)) = 1)
   \<and> (\<exists>net. visualize_graph sorted_list_of_set
               (Some [\<lparr>nodes = scenario_nodes, relationships = [rel_works_for, rel_works_for]\<rparr>])
              = (Inr (Some net), [])
           \<and> distinct (map v_id (net_nodes net))
           \<and> length (filter (\<lambda>v. v_id v = ''A'') (net_nodes net)) = 1)"
proof -
  let ?gd = "\<lparr>nodes = scenario_nodes, relationships = [rel_works_for, rel_works_for]\<rparr>"
  have m: "''A'' \<in> snd (validate (nodes ?gd) (relationships ?gd))"
    by (simp add: validate_def build_node_dict_def scenario_defs)
  note t = C8_vertex_insertion_idempotent
         [of "''A''" "''A''" "''Person''" "''Person''" "Network True" "''A''" "''Person''"
             "''Person''" sorted_list_of_set ?gd "[]"]
  from t wf_Network [of True] have p1:
    "\<exists>net1. add_node ''A'' ''A'' ''Person'' ''Person'' (Network True) = Inr net1
        \<and> add_node ''A'' ''A'' ''Person'' ''Person'' net1 = Inr net1
        \<and> length (filter (\<lambda>v. v_id v = ''A'') (net_nodes net1)) = 1"
    by blast
  from t set_iteration_sorted obtain net where
    v: "visualize_graph sorted_list_of_set (Some [?gd]) = (Inr (Some net), [])"
    and d: "distinct (map v_id (net_nodes net))"
    and a: "\<forall>j \<in> snd (validate (nodes ?gd) (relationships ?gd)).
                 length (filter (\<lambda>v. v_id v = j) (net_nodes net)) = 1"
    by blast
  from a m have "length (filter (\<lambda>v. v_id v = ''A'') (net_nodes net)) = 1" by (rule bspec)
  with v d have p2: "\<exists>net. visualize_graph sorted_list_of_set (Some [?gd]) = (Inr (Some net), [])
           \<and> distinct (map v_id (net_nodes net))
           \<and> length (filter (\<lambda>v. v_id v = ''A'') (net_nodes net)) = 1"
    by blast
  from m have m': "''A'' \<in> snd (validate scenario_nodes [rel_works_for, rel_works_for])"
    by simp
  from wf_Network [of True] set_iteration_sorted m' p1 p2 show ?thesis by (intro conjI)
qed

lemma set_iteration_rev_sorted: "set_iteration (\<lambda>S. rev (sorted_list_of_set S))"
  by (simp add: set_iteration_def)

text \<open>
  C9. Validation does not depend on the order in which the set of ids is iterated. For any
  two iteration orders, the two runs of \<^verbatim>\<open>visualize_graph\<close> on the same documents return
  networks with the same set of vertices, the same edges and the same options, and neither
  run prints anything.
\<close>

theorem C9_determinism:
  assumes "set_iteration iter1" and "set_iteration iter2"
  shows "\<exists>net1 net2.
            visualize_graph iter1 (Some (gd # rest)) = (Inr (Some net1), [])
          \<and> visualize_graph iter2 (Some (gd # rest)) = (Inr (Some net2), [])
          \<and> set (net_nodes net1) = set (net_nodes net2)
          \<and> edges net1 = edges net2
          \<and> options net1 = options net2"
proof -
  have "set (net_nodes (rendered iter1 gd)) = set (net_nodes (rendered iter2 gd))"
    by (simp add: rendered_net_nodes [OF assms(1)] rendered_net_nodes [OF assms(2)])
  moreover have "edges (rendered iter1 gd) = edges (rendered iter2 gd)"
    by (simp add: rendered_edges)
  moreover have "options (rendered iter1 gd) = options (rendered iter2 gd)"
    by (simp add: rendered_def set_options_def)
  ultimately show ?thesis
    using visualize_graph_eq [OF assms(1), of gd rest] visualize_graph_eq [OF assms(2), of gd rest]
    by blast
qed

theorem C9_determinism_witness:
  "set_iteration sorted_list_of_set \<and> set_iteration (\<lambda>S. rev (sorted_list_of_set S))
   \<and> map_sum id (map_option node_ids)
         (fst (visualize_graph sorted_list_of_set (Some [scenario_doc])))
       = Inr (Some [''A'', ''C''])
   \<and> map_sum id (map_option node_ids)
         (fst (visualize_graph (\<lambda>S. rev (sorted_list_of_set S)) (Some [scenario_doc])))
       = Inr (Some [''C'', ''A''])
   \<and> (\<exists>net1 net2.
            visualize_graph sorted_list_of_set (Some [scenario_doc]) = (Inr (Some net1), [])
          \<and> visualize_graph (\<lambda>S. rev (sorted_list_of_set S)) (Some [scenario_doc])
              = (Inr (Some net2), [])
          \<and> set (net_nodes net1) = set (net_nodes net2)
          \<and> edges net1 = edges net2
          \<and> options net1 = options net2)"
proof -
  have a: "map_sum id (map_option node_ids)
             (fst (visualize_graph sorted_list_of_set (Some [scenario_doc])))
           = Inr (Some [''A'', ''C''])"
    by code_simp
  have b: "map_sum id (map_option node_ids)
             (fst (visualize_graph (\<lambda>S. rev (sorted_list_of_set S)) (Some [scenario_doc])))
           = Inr (Some [''C'', ''A''])"
    by code_simp
  from C9_determinism [OF set_iteration_sorted set_iteration_rev_sorted, of scenario_doc "[]"]
    a b set_iteration_sorted set_iteration_rev_sorted
  show ?thesis by (intro conjI)
qed

text \<open>
  C10. Given None or an empty list, \<^verbatim>\<open>visualize_graph\<close> returns None. When the transformer
  raises or returns an empty list, \<^verbatim>\<open>generate_knowledge_graph_async\<close> returns the pair
  (None, None). When it returns a document none of whose relationships is kept, the result
  is a network without vertices and edges, together with the documents.
\<close>

theorem C10_empty_extraction_is_failure:
  "fst (visualize_graph iter None) = Inr None
   \<and> fst (visualize_graph iter (Some [])) = Inr None
   \<and> (t text = Inr [] \<or> (\<exists>e. t text = Inl e) \<longrightarrow>
        fst (generate_knowledge_graph_async iter text t) = (None, None))
   \<and> (set_iteration iter \<and> t text = Inr (gd # rest)
        \<and> fst (validate (nodes gd) (relationships gd)) = [] \<longrightarrow>
        (\<exists>net. fst (generate_knowledge_graph_async iter text t) = (Some net, Some (gd # rest))
            \<and> net_nodes net = [] \<and> edges net = []))"
proof -
  have a: "fst (visualize_graph iter None) = Inr None"
    "fst (visualize_graph iter (Some [])) = Inr None"
    by (simp_all add: visualize_graph_def visualize_graph_with_def)
  have b: "t text = Inr [] \<or> (\<exists>e. t text = Inl e) \<longrightarrow>
        fst (generate_knowledge_graph_async iter text t) = (None, None)"
    by (auto simp: generate_knowledge_graph_async_def extract_graph_data_def)
  have c: "set_iteration iter \<and> t text = Inr (gd # rest)
        \<and> fst (validate (nodes gd) (relationships gd)) = [] \<longrightarrow>
        (\<exists>net. fst (generate_knowledge_graph_async iter text t) = (Some net, Some (gd # rest))
            \<and> net_nodes net = [] \<and> edges net = [])"
  proof
    assume h: "set_iteration iter \<and> t text = Inr (gd # rest)
        \<and> fst (validate (nodes gd) (relationships gd)) = []"
    then have it: "set_iteration iter" and tx: "t text = Inr (gd # rest)"
      and ve: "fst (validate (nodes gd) (relationships gd)) = []" by simp_all
    from ve have vs: "snd (validate (nodes gd) (relationships gd)) = {}"
      by (simp add: validate_eq endpoints_def)
    have "set (net_nodes (rendered iter gd)) = {}"
      by (simp add: rendered_net_nodes [OF it] vs)
    then have n: "net_nodes (rendered iter gd) = []" by simp
    have e: "edges (rendered iter gd) = []" by (simp add: rendered_edges ve)
    have "fst (generate_knowledge_graph_async iter text t) = (Some (rendered iter gd), Some (gd # rest))"
      by (simp add: generate_knowledge_graph_async_def extract_graph_data_def tx
            visualize_graph_eq [OF it])
    with n e show "\<exists>net. fst (generate_knowledge_graph_async iter text t) = (Some net, Some (gd # rest))
            \<and> net_nodes net = [] \<and> edges net = []" by blast
  qed
  from a b c show ?thesis by (intro conjI)
qed

theorem C10_empty_extraction_is_failure_witness:
  "fst (generate_knowledge_graph_async sorted_list_of_set ''some text'' (\<lambda>text. Inr [])) = (None, None)
   \<and> fst (generate_knowledge_graph_async sorted_list_of_set ''some text''
             (\<lambda>text. Inl (Exception ''quota''))) = (None, None)
   \<and> set_iteration sorted_list_of_set
   \<and> fst (validate (nodes \<lparr>nodes = scenario_nodes, relationships = [rel_knows]\<rparr>)
                    (relationships \<lparr>nodes = scenario_nodes, relationships = [rel_knows]\<rparr>)) = []
   \<and> (\<exists>net. fst (generate_knowledge_graph_async sorted_list_of_set ''some text''
                    (\<lambda>text. Inr [\<lparr>nodes = scenario_nodes, relationships = [rel_knows]\<rparr>]))
                = (Some net, Some [\<lparr>nodes = scenario_nodes, relationships = [rel_knows]\<rparr>])
            \<and> net_nodes net = [] \<and> edges net = [])"
proof -
  let ?gd = "\<lparr>nodes = scenario_nodes, relationships = [rel_knows]\<rparr>"
  have v: "fst (validate (nodes ?gd) (relationships ?gd)) = []"
    by (simp add: validate_def build_node_dict_def scenario_defs)
  note a = C10_empty_extraction_is_failure
             [of sorted_list_of_set "\<lambda>text. Inr []" "''some text''" ?gd "[]"]
  note b = C10_empty_extraction_is_failure
             [of sorted_list_of_set "\<lambda>text. Inl (Exception ''quota'')" "''some text''" ?gd "[]"]
  note c = C10_empty_extraction_is_failure
             [of sorted_list_of_set "\<lambda>text. Inr [?gd]" "''some text''" ?gd "[]"]
  from a have a': "fst (generate_knowledge_graph_async sorted_list_of_set ''some text''
                     (\<lambda>text. Inr [])) = (None, None)" by simp
  from b have b': "fst (generate_knowledge_graph_async sorted_list_of_set ''some text''
             (\<lambda>text. Inl (Exception ''quota''))) = (None, None)" by simp
  from c v set_iteration_sorted have c':
    "\<exists>net. fst (generate_knowledge_graph_async sorted_list_of_set ''some text''
                    (\<lambda>text. Inr [?gd])) = (Some net, Some [?gd])
            \<and> net_nodes net = [] \<and> edges net = []" by simp
  from a' b' set_iteration_sorted v c' show ?thesis by (intro conjI)
qed












end
